theory Spec2Isabelle
  imports Complex_Main "HOL-Library.Sublist"
begin

section \<open>BikaMusic: the per-group play queue and its command handlers\<close>

text \<open>
  A shallow embedding of \<^verbatim>\<open>main.py\<close>: the helpers of the resolver
  (\<^verbatim>\<open>is_url\<close>, \<^verbatim>\<open>ytdlp_to_mp3\<close>), the presence check
  (\<^verbatim>\<open>assistant_in_group\<close>), the call helpers (\<^verbatim>\<open>ensure_peer\<close>,
  \<^verbatim>\<open>ensure_join_and_play\<close>, \<^verbatim>\<open>play_next\<close>) and the handlers
  \<^verbatim>\<open>cmd_play\<close>, \<^verbatim>\<open>cmd_skip\<close>, \<^verbatim>\<open>cmd_stop\<close>.

  Conventions of the model.
  \<^item> A Python \<^verbatim>\<open>str\<close> is a \<^typ>\<open>string\<close>; one \<^typ>\<open>char\<close> stands for one
    Python character (code points below 256).
  \<^item> The two module-level dictionaries and \<^verbatim>\<open>ASSISTANT_ID\<close> are fields of the
    record \<open>world\<close>; a handler takes the world and returns the new one.
  \<^item> Every call that leaves the process (Pyrogram, PyTgCalls, \<^verbatim>\<open>os\<close>,
    \<^verbatim>\<open>subprocess\<close>, the replies of the bot) is appended to the field \<open>trace\<close>.
    Whether such a call raises is decided by the environment \<open>env\<close>, which sees the
    whole history of calls made so far, so the same call may succeed once and fail later.
  \<^item> A Python exception is a value \<open>Exc cls msg\<close>, with \<open>msg\<close> the text that
    \<^verbatim>\<open>str(e)\<close> gives; a function that may raise returns \<open>exn + 'a\<close>.
  \<^item> One handler runs from start to end without another handler running in between
    (the single worker per group that the specification assumes), and sending a reply
    does not raise.
\<close>

subsection \<open>Python string helpers\<close>

definition startswith :: "string \<Rightarrow> string \<Rightarrow> bool" where
  "startswith s p = (take (length p) s = p)"

definition endswith :: "string \<Rightarrow> string \<Rightarrow> bool" where
  "endswith s p = (length p \<le> length s \<and> drop (length s - length p) s = p)"

text \<open>\<^verbatim>\<open>str.isspace\<close> on one character, which is also what \<^verbatim>\<open>\s\<close> matches.\<close>

definition py_isspace :: "char \<Rightarrow> bool" where
  "py_isspace c =
     (let n = (of_char c :: nat)
      in (9 \<le> n \<and> n \<le> 13) \<or> (28 \<le> n \<and> n \<le> 32) \<or> n = 133 \<or> n = 160)"

text \<open>\<^verbatim>\<open>s.strip()\<close>\<close>

definition py_strip :: "string \<Rightarrow> string" where
  "py_strip s = rev (dropWhile py_isspace (rev (dropWhile py_isspace s)))"

text \<open>\<^verbatim>\<open>re.sub(r"\s+", " ", text)\<close>: every maximal run of whitespace becomes one space.\<close>

function sub_spaces :: "string \<Rightarrow> string" where
  "sub_spaces [] = []"
| "sub_spaces (c # cs) =
     (if py_isspace c then CHR '' '' # sub_spaces (dropWhile py_isspace cs)
      else c # sub_spaces cs)"
  by pat_completeness auto
termination
  by (relation "measure length") (auto simp: length_dropWhile_le less_Suc_eq_le)

definition normalize_music_query :: "string \<Rightarrow> string" where
  "normalize_music_query text = py_strip (sub_spaces text)"

text \<open>\<^verbatim>\<open>s.split(maxsplit=1)\<close>: the first word, then the rest of the string from its
  first non-blank character to the end (trailing blanks kept).\<close>

definition split_maxsplit1 :: "string \<Rightarrow> string list" where
  "split_maxsplit1 s =
     (let s1 = dropWhile py_isspace s
      in if s1 = [] then []
         else let w = takeWhile (\<lambda>c. \<not> py_isspace c) s1;
                  r = dropWhile py_isspace (dropWhile (\<lambda>c. \<not> py_isspace c) s1)
              in if r = [] then [w] else [w, r])"

definition is_url :: "string \<Rightarrow> bool" where
  "is_url s = (startswith s ''http://'' \<or> startswith s ''https://'')"

text \<open>\<^verbatim>\<open>os.path.basename\<close> and \<^verbatim>\<open>os.path.join\<close> (two arguments) of \<^verbatim>\<open>posixpath\<close>.\<close>

definition os_path_basename :: "string \<Rightarrow> string" where
  "os_path_basename p = rev (takeWhile (\<lambda>c. c \<noteq> CHR ''/'') (rev p))"

definition os_path_join :: "string \<Rightarrow> string \<Rightarrow> string" where
  "os_path_join a b =
     (if startswith b ''/'' then b
      else if a = [] \<or> endswith a ''/'' then a @ b
      else a @ ''/'' @ b)"

text \<open>The one-character string U+2014 that \<^verbatim>\<open>safe_basename\<close> returns for no path,
  written as its three UTF-8 bytes.\<close>

definition em_dash :: string where
  "em_dash = [char_of (226::nat), char_of (128::nat), char_of (148::nat)]"

definition safe_basename :: "string option \<Rightarrow> string" where
  "safe_basename path =
     (case path of
        None \<Rightarrow> em_dash
      | Some p \<Rightarrow>
          if p = [] then em_dash
          else filter (\<lambda>c. c \<noteq> CHR ''>'') (filter (\<lambda>c. c \<noteq> CHR ''<'') (os_path_basename p)))"

subsection \<open>Data\<close>

datatype exn = Exc (exc_class: string) (exc_str: string)

text \<open>\<^verbatim>\<open>xs.sort(key=k, reverse=True)\<close>. CPython first calls \<open>k\<close> once on every element,
  in list order, and the first exception of \<open>k\<close> leaves the sort; then it sorts stably in
  descending order of the keys (it reverses, sorts stably in ascending order and reverses
  again).\<close>

fun decorate :: "('a \<Rightarrow> exn + real) \<Rightarrow> 'a list \<Rightarrow> exn + ('a \<times> real) list" where
  "decorate k [] = Inr []"
| "decorate k (x # xs) =
     (case k x of
        Inl e \<Rightarrow> Inl e
      | Inr t \<Rightarrow> (case decorate k xs of Inl e \<Rightarrow> Inl e | Inr ys \<Rightarrow> Inr ((x, t) # ys)))"

definition py_sort_desc :: "('a \<Rightarrow> exn + real) \<Rightarrow> 'a list \<Rightarrow> exn + 'a list" where
  "py_sort_desc k xs =
     (case decorate k xs of
        Inl e \<Rightarrow> Inl e
      | Inr ys \<Rightarrow> Inr (map fst (rev (sort_key snd (rev ys)))))"

text \<open>The texts the bot sends, one constructor per template of the source, with the value
  the template interpolates.\<close>

datatype reply_text =
    GroupOnlyVC               \<comment> \<open>\<^verbatim>\<open>/play\<close> outside a group or supergroup\<close>
  | GroupOnly                 \<comment> \<open>\<^verbatim>\<open>/skip\<close>, \<^verbatim>\<open>/stop\<close> outside a group or supergroup\<close>
  | PlayUsage                 \<comment> \<open>\<^verbatim>\<open>/play\<close> without an argument\<close>
  | AssistantMissing          \<comment> \<open>the assistant account is not in the group\<close>
  | Searching                 \<comment> \<open>the first reply, edited later\<close>
  | ResolveFailed string      \<comment> \<open>\<^verbatim>\<open>str(e)[:180]\<close> of the resolver's exception\<close>
  | Playing string            \<comment> \<open>\<^verbatim>\<open>Playing: safe_basename(file_path)\<close>\<close>
  | JoinFailed string         \<comment> \<open>\<^verbatim>\<open>VC join/play ... Error: str(e)[:180]\<close> and a checklist\<close>
  | Queued string             \<comment> \<open>\<^verbatim>\<open>Queued: safe_basename(file_path)\<close>\<close>
  | QueueEmpty                \<comment> \<open>\<^verbatim>\<open>/skip\<close> on an empty queue\<close>
  | StoppedQueueEmpty         \<comment> \<open>\<^verbatim>\<open>Stopped (queue empty)\<close>\<close>
  | Skipped                   \<comment> \<open>\<^verbatim>\<open>Skipped\<close>\<close>
  | NextPlayFailed string     \<comment> \<open>\<^verbatim>\<open>Next play ...: str(e)[:180]\<close>\<close>
  | StoppedCleared            \<comment> \<open>\<^verbatim>\<open>Stopped & cleared queue\<close>\<close>

datatype event =
    GetChat int                       \<comment> \<open>\<^verbatim>\<open>assistant.get_chat(chat_id)\<close>\<close>
  | GetChatMember int int             \<comment> \<open>\<^verbatim>\<open>assistant.get_chat_member(chat_id, ASSISTANT_ID)\<close>\<close>
  | ChangeStream int string           \<comment> \<open>\<^verbatim>\<open>calls.change_stream(chat_id, ...file_path...)\<close>\<close>
  | JoinGroupCall int string          \<comment> \<open>\<^verbatim>\<open>calls.join_group_call(chat_id, ...file_path...)\<close>\<close>
  | LeaveGroupCall int                \<comment> \<open>\<^verbatim>\<open>calls.leave_group_call(chat_id)\<close>\<close>
  | Remove string                     \<comment> \<open>\<^verbatim>\<open>os.remove(path)\<close>\<close>
  | Makedirs string                   \<comment> \<open>\<^verbatim>\<open>os.makedirs(path, exist_ok=True)\<close>\<close>
  | CheckCall "string list"           \<comment> \<open>\<^verbatim>\<open>subprocess.check_call(cmd)\<close>\<close>
  | Reply reply_text                  \<comment> \<open>\<^verbatim>\<open>m.reply(...)\<close>\<close>
  | EditText reply_text               \<comment> \<open>\<^verbatim>\<open>msg.edit_text(...)\<close>\<close>

record chat =
  chat_id :: int
  chat_type :: string

record message =
  msg_chat :: "chat option"
  msg_text :: "string option"

record world =
  assistant_id :: "int option"
  mem_queue :: "int \<rightharpoonup> string list"
  mem_now :: "int \<rightharpoonup> string option"
  trace :: "event list"

text \<open>The environment: for a call made after the history \<open>h\<close>, \<open>respond h call\<close> is
  \<open>None\<close> when the call returns and \<open>Some e\<close> when it raises \<open>e\<close>; \<open>listdir\<close> and
  \<open>getmtime\<close> are \<^verbatim>\<open>os.listdir\<close> and \<^verbatim>\<open>os.path.getmtime\<close> on the file system as it
  is after \<open>h\<close>, and either may raise (a directory that cannot be read, a listed file that
  another handler has removed in the meantime).\<close>

record env =
  respond :: "event list \<Rightarrow> event \<Rightarrow> exn option"
  listdir :: "event list \<Rightarrow> string \<Rightarrow> exn + string list"
  getmtime :: "event list \<Rightarrow> string \<Rightarrow> exn + real"

subsection \<open>Programs that change the world and may raise\<close>

type_synonym 'a prog = "world \<Rightarrow> (exn + 'a) \<times> world"

definition ret :: "'a \<Rightarrow> 'a prog" where
  "ret x = (\<lambda>w. (Inr x, w))"

definition throw :: "exn \<Rightarrow> 'a prog" where
  "throw e = (\<lambda>w. (Inl e, w))"

definition seq :: "'a prog \<Rightarrow> ('a \<Rightarrow> 'b prog) \<Rightarrow> 'b prog" where
  "seq m f = (\<lambda>w. case m w of (Inl e, w') \<Rightarrow> (Inl e, w') | (Inr x, w') \<Rightarrow> f x w')"

text \<open>\<^verbatim>\<open>try: m except Exception as e: ...\<close>: the result of \<open>m\<close>, raised or returned, as a value.\<close>

definition attempt :: "'a prog \<Rightarrow> (exn + 'a) prog" where
  "attempt m = (\<lambda>w. case m w of (r, w') \<Rightarrow> (Inr r, w'))"

text \<open>\<^verbatim>\<open>try: m except Exception: pass\<close>\<close>

definition swallow :: "'a prog \<Rightarrow> unit prog" where
  "swallow m = (\<lambda>w. (Inr (), snd (m w)))"

definition gets :: "(world \<Rightarrow> 'a) \<Rightarrow> 'a prog" where
  "gets f = (\<lambda>w. (Inr (f w), w))"

definition modify :: "(world \<Rightarrow> world) \<Rightarrow> unit prog" where
  "modify f = (\<lambda>w. (Inr (), f w))"

definition log :: "event \<Rightarrow> world \<Rightarrow> world" where
  "log ev w = w\<lparr>trace := trace w @ [ev]\<rparr>"

text \<open>A read of the world outside the process, which may raise.\<close>

definition reads :: "(event list \<Rightarrow> exn + 'a) \<Rightarrow> 'a prog" where
  "reads f = (\<lambda>w. (f (trace w), w))"

text \<open>A call that may raise, and a reply (which does not).\<close>

definition ext :: "env \<Rightarrow> event \<Rightarrow> unit prog" where
  "ext E ev = (\<lambda>w. (case respond E (trace w) ev of None \<Rightarrow> Inr () | Some e \<Rightarrow> Inl e, log ev w))"

definition say :: "event \<Rightarrow> unit prog" where
  "say ev = (\<lambda>w. (Inr (), log ev w))"

text \<open>\<^verbatim>\<open>mem_queue.get(chat_id, [])\<close> and \<^verbatim>\<open>mem_now.get(chat_id)\<close>\<close>

definition queue_of :: "world \<Rightarrow> int \<Rightarrow> string list" where
  "queue_of w c = (case mem_queue w c of None \<Rightarrow> [] | Some q \<Rightarrow> q)"

definition now_of :: "world \<Rightarrow> int \<Rightarrow> string option" where
  "now_of w c = (case mem_now w c of None \<Rightarrow> None | Some v \<Rightarrow> v)"

definition set_queue :: "int \<Rightarrow> string list \<Rightarrow> world \<Rightarrow> world" where
  "set_queue c q w = w\<lparr>mem_queue := (mem_queue w)(c \<mapsto> q)\<rparr>"

definition set_now :: "int \<Rightarrow> string option \<Rightarrow> world \<Rightarrow> world" where
  "set_now c v w = w\<lparr>mem_now := (mem_now w)(c \<mapsto> v)\<rparr>"

subsection \<open>The resolver\<close>

definition tmp_dir :: string where
  "tmp_dir = ''/tmp/tg_music''"

definition outtmpl :: string where
  "outtmpl = ''/tmp/tg_music/%(title).80s_%(id)s.%(ext)s''"

definition ytdlp_cmd :: "string \<Rightarrow> string list" where
  "ytdlp_cmd target =
     [''yt-dlp'', ''-x'', ''--audio-format'', ''mp3'', ''--no-playlist'', ''-o'', outtmpl, target]"

definition ytdlp_to_mp3 :: "env \<Rightarrow> string \<Rightarrow> string prog" where
  "ytdlp_to_mp3 E query_or_url =
     seq (ext E (Makedirs tmp_dir)) (\<lambda>_.
     let target = (if \<not> is_url query_or_url then ''ytsearch1:'' @ query_or_url
                   else query_or_url)
     in
     seq (ext E (CheckCall (ytdlp_cmd target))) (\<lambda>_.
     seq (reads (\<lambda>h. listdir E h tmp_dir)) (\<lambda>names.
     let files0 = filter (\<lambda>f. endswith f ''.mp3'') names in
     seq (reads (\<lambda>h. py_sort_desc (\<lambda>x. getmtime E h (os_path_join tmp_dir x)) files0))
       (\<lambda>files.
     if files = [] then throw (Exc ''RuntimeError'' ''No mp3 produced'')
     else ret (os_path_join tmp_dir (hd files))))))"

subsection \<open>Presence check and call helpers\<close>

definition cleanup_file :: "env \<Rightarrow> string \<Rightarrow> unit prog" where
  "cleanup_file E path = swallow (ext E (Remove path))"

definition ensure_peer :: "env \<Rightarrow> int \<Rightarrow> unit prog" where
  "ensure_peer E c = swallow (ext E (GetChat c))"

definition assistant_in_group :: "env \<Rightarrow> int \<Rightarrow> bool prog" where
  "assistant_in_group E c =
     seq (gets assistant_id) (\<lambda>aid.
     case aid of
       None \<Rightarrow> ret False
     | Some a \<Rightarrow>
         if a = 0 then ret False
         else seq (attempt (seq (ensure_peer E c) (\<lambda>_. ext E (GetChatMember c a)))) (\<lambda>r.
              case r of Inr _ \<Rightarrow> ret True | Inl _ \<Rightarrow> ret False))"

definition ensure_join_and_play :: "env \<Rightarrow> int \<Rightarrow> string \<Rightarrow> unit prog" where
  "ensure_join_and_play E c file_path =
     seq (ensure_peer E c) (\<lambda>_.
     seq (attempt (ext E (ChangeStream c file_path))) (\<lambda>r.
     case r of Inr _ \<Rightarrow> ret () | Inl _ \<Rightarrow> ext E (JoinGroupCall c file_path)))"

definition play_next :: "env \<Rightarrow> int \<Rightarrow> unit prog" where
  "play_next E c =
     seq (gets (\<lambda>w. queue_of w c)) (\<lambda>q.
     case q of
       [] \<Rightarrow> seq (modify (set_now c None)) (\<lambda>_. swallow (ext E (LeaveGroupCall c)))
     | file_path # _ \<Rightarrow>
         seq (modify (set_now c (Some file_path))) (\<lambda>_. ensure_join_and_play E c file_path))"

subsection \<open>Command handlers\<close>

text \<open>\<^verbatim>\<open>not m.chat or m.chat.type not in ("group", "supergroup")\<close>, negated.\<close>

definition group_chat :: "message \<Rightarrow> int option" where
  "group_chat m =
     (case msg_chat m of
        None \<Rightarrow> None
      | Some ch \<Rightarrow> if chat_type ch \<in> set [''group'', ''supergroup''] then Some (chat_id ch) else None)"

text \<open>\<^verbatim>\<open>(m.text or "").split(maxsplit=1)\<close>\<close>

definition parts_of :: "message \<Rightarrow> string list" where
  "parts_of m = split_maxsplit1 (case msg_text m of None \<Rightarrow> [] | Some t \<Rightarrow> t)"

definition cmd_play :: "env \<Rightarrow> message \<Rightarrow> unit prog" where
  "cmd_play E m =
     (case group_chat m of
        None \<Rightarrow> say (Reply GroupOnlyVC)
      | Some c \<Rightarrow>
          let parts = parts_of m in
          if length parts < 2 then say (Reply PlayUsage)
          else
            seq (assistant_in_group E c) (\<lambda>present.
            if \<not> present then say (Reply AssistantMissing)
            else
              let query = normalize_music_query (parts ! 1) in
              seq (say (Reply Searching)) (\<lambda>_.
              seq (attempt (ytdlp_to_mp3 E query)) (\<lambda>r.
              case r of
                Inl e \<Rightarrow> say (EditText (ResolveFailed (take 180 (exc_str e))))
              | Inr file_path \<Rightarrow>
                  seq (modify (\<lambda>w. set_queue c (queue_of w c @ [file_path]) w)) (\<lambda>_.
                  seq (gets (\<lambda>w. length (queue_of w c))) (\<lambda>n.
                  if n = 1 then
                    seq (attempt
                          (seq (play_next E c) (\<lambda>_.
                           say (EditText (Playing (safe_basename (Some file_path))))))) (\<lambda>r2.
                    case r2 of
                      Inr _ \<Rightarrow> ret ()
                    | Inl e \<Rightarrow> say (EditText (JoinFailed (take 180 (exc_str e)))))
                  else say (EditText (Queued (safe_basename (Some file_path))))))))))"

definition cmd_skip :: "env \<Rightarrow> message \<Rightarrow> unit prog" where
  "cmd_skip E m =
     (case group_chat m of
        None \<Rightarrow> say (Reply GroupOnly)
      | Some c \<Rightarrow>
          seq (gets (\<lambda>w. queue_of w c)) (\<lambda>q.
          case q of
            [] \<Rightarrow> say (Reply QueueEmpty)
          | cur # rest \<Rightarrow>
              seq (modify (set_queue c rest)) (\<lambda>_.
              seq (cleanup_file E cur) (\<lambda>_.
              if rest = [] then
                seq (modify (set_now c None)) (\<lambda>_.
                seq (swallow (ext E (LeaveGroupCall c))) (\<lambda>_.
                say (Reply StoppedQueueEmpty)))
              else
                seq (attempt (seq (play_next E c) (\<lambda>_. say (Reply Skipped)))) (\<lambda>r.
                case r of
                  Inr _ \<Rightarrow> ret ()
                | Inl e \<Rightarrow> say (Reply (NextPlayFailed (take 180 (exc_str e)))))))))"

fun cleanup_all :: "env \<Rightarrow> string list \<Rightarrow> unit prog" where
  "cleanup_all E [] = ret ()"
| "cleanup_all E (f # fs) = seq (cleanup_file E f) (\<lambda>_. cleanup_all E fs)"

definition cmd_stop :: "env \<Rightarrow> message \<Rightarrow> unit prog" where
  "cmd_stop E m =
     (case group_chat m of
        None \<Rightarrow> say (Reply GroupOnly)
      | Some c \<Rightarrow>
          seq (gets (\<lambda>w. queue_of w c)) (\<lambda>q.
          seq (cleanup_all E q) (\<lambda>_.
          seq (modify (set_queue c [])) (\<lambda>_.
          seq (modify (set_now c None)) (\<lambda>_.
          seq (swallow (ext E (LeaveGroupCall c))) (\<lambda>_.
          say (Reply StoppedCleared)))))))"

subsection \<open>Requests and their delivery\<close>

datatype request = PlayRequest message | SkipRequest message | StopRequest message

definition handle :: "env \<Rightarrow> request \<Rightarrow> unit prog" where
  "handle E r =
     (case r of
        PlayRequest m \<Rightarrow> cmd_play E m
      | SkipRequest m \<Rightarrow> cmd_skip E m
      | StopRequest m \<Rightarrow> cmd_stop E m)"

text \<open>\<^verbatim>\<open>telegram_webhook\<close> feeds one update to its handler inside
  \<^verbatim>\<open>try: ... except Exception: pass\<close>; \<open>run\<close> delivers a sequence of requests.\<close>

definition telegram_webhook :: "env \<Rightarrow> request \<Rightarrow> unit prog" where
  "telegram_webhook E r = swallow (handle E r)"

fun run :: "env \<Rightarrow> request list \<Rightarrow> world \<Rightarrow> world" where
  "run E [] w = w"
| "run E (r # rs) w = run E rs (snd (telegram_webhook E r w))"

text \<open>The state when the module has been loaded and \<^verbatim>\<open>on_startup\<close> has set
  \<^verbatim>\<open>ASSISTANT_ID\<close>.\<close>

definition started :: "int option \<Rightarrow> world" where
  "started aid = \<lparr>assistant_id = aid, mem_queue = Map.empty, mem_now = Map.empty, trace = []\<rparr>"

subsection \<open>Reading a trace\<close>

definition new_events :: "world \<Rightarrow> world \<Rightarrow> event list" where
  "new_events w w' = drop (length (trace w)) (trace w')"

fun is_call_op :: "event \<Rightarrow> bool" where
  "is_call_op (ChangeStream _ _) = True"
| "is_call_op (JoinGroupCall _ _) = True"
| "is_call_op (LeaveGroupCall _) = True"
| "is_call_op _ = False"

fun is_resolver_call :: "event \<Rightarrow> bool" where
  "is_resolver_call (Makedirs _) = True"
| "is_resolver_call (CheckCall _) = True"
| "is_resolver_call _ = False"

fun is_reply :: "event \<Rightarrow> bool" where
  "is_reply (Reply _) = True"
| "is_reply (EditText _) = True"
| "is_reply _ = False"

fun check_calls :: "event list \<Rightarrow> string list list" where
  "check_calls [] = []"
| "check_calls (CheckCall cmd # evs) = cmd # check_calls evs"
| "check_calls (_ # evs) = check_calls evs"

subsection \<open>Concrete messages and environments\<close>

definition group_msg :: "int \<Rightarrow> string \<Rightarrow> message" where
  "group_msg c t = \<lparr>msg_chat = Some \<lparr>chat_id = c, chat_type = ''supergroup''\<rparr>, msg_text = Some t\<rparr>"

text \<open>Every call returns; the download directory holds one file.\<close>

definition calm :: env where
  "calm = \<lparr>respond = (\<lambda>h ev. None), listdir = (\<lambda>h d. Inr [''song.mp3'']), getmtime = (\<lambda>h p. Inr 1)\<rparr>"

text \<open>The assistant account is not a member: the membership lookup raises.\<close>

definition absent :: env where
  "absent =
     \<lparr>respond = (\<lambda>h ev. case ev of
                    GetChatMember _ _ \<Rightarrow> Some (Exc ''UserNotParticipant'' ''USER_NOT_PARTICIPANT'')
                  | _ \<Rightarrow> None),
      listdir = (\<lambda>h d. Inr [''song.mp3'']), getmtime = (\<lambda>h p. Inr 1)\<rparr>"

text \<open>No voice chat is open: changing the stream and joining both raise.\<close>

definition no_voice_chat :: env where
  "no_voice_chat =
     \<lparr>respond = (\<lambda>h ev. case ev of
                    ChangeStream _ _ \<Rightarrow> Some (Exc ''NotInGroupCallError'' ''not in a group call'')
                  | JoinGroupCall _ _ \<Rightarrow> Some (Exc ''NoActiveGroupCall'' ''no active group call'')
                  | _ \<Rightarrow> None),
      listdir = (\<lambda>h d. Inr [''song.mp3'']), getmtime = (\<lambda>h p. Inr 1)\<rparr>"

text \<open>The download returns, and the directory also holds a newer file of an earlier request.\<close>

definition stale_dir :: env where
  "stale_dir =
     \<lparr>respond = (\<lambda>h ev. None),
      listdir = (\<lambda>h d. Inr [''new.mp3'', ''notes.txt'', ''old.mp3'']),
      getmtime = (\<lambda>h p. Inr (if p = ''/tmp/tg_music/old.mp3'' then 5 else 1))\<rparr>"

text \<open>The download returns, and the directory holds no mp3 file.\<close>

definition empty_dir :: env where
  "empty_dir =
     \<lparr>respond = (\<lambda>h ev. None), listdir = (\<lambda>h d. Inr [''notes.txt'']),
      getmtime = (\<lambda>h p. Inr 1)\<rparr>"

text \<open>The download returns and the directory lists an mp3 file, but the file is gone when
  its modification time is read (a \<^verbatim>\<open>/skip\<close> or \<^verbatim>\<open>/stop\<close> removed it).\<close>

definition vanished :: env where
  "vanished =
     \<lparr>respond = (\<lambda>h ev. None),
      listdir = (\<lambda>h d. Inr [''song.mp3'']),
      getmtime = (\<lambda>h p. Inl (Exc ''FileNotFoundError''
                   (''[Errno 2] No such file or directory: '' @ [CHR 0x27] @ p @ [CHR 0x27])))\<rparr>"






subsection \<open>The relation between the two dictionaries\<close>

text \<open>In the source the item being played stays at index 0 of the group's list until
  \<^verbatim>\<open>/skip\<close> pops it or \<^verbatim>\<open>/stop\<close> empties the list: \<^verbatim>\<open>mem_now\<close> holds the head of
  \<^verbatim>\<open>mem_queue\<close>.\<close>

definition head_is_current :: "world \<Rightarrow> int \<Rightarrow> bool" where
  "head_is_current w c = (now_of w c = (case queue_of w c of [] \<Rightarrow> None | p # _ \<Rightarrow> Some p))"

text \<open>The property as the specification words it: no reference occurs twice in
  \<open>pending\<close>, and \<open>current\<close> is not in \<open>pending\<close>.\<close>

definition spec_no_duplicates :: "string list \<Rightarrow> string option \<Rightarrow> bool" where
  "spec_no_duplicates pending current =
     (distinct pending \<and> (case current of None \<Rightarrow> True | Some a \<Rightarrow> a \<notin> set pending))"

text \<open>The same title requested twice in group 1.\<close>

definition played_twice :: world where
  "played_twice =
     run calm [PlayRequest (group_msg 1 ''/play song''), PlayRequest (group_msg 1 ''/play song'')]
       (started (Some 7))"

text \<open>A state in which group 1 holds the list \<open>q\<close> and plays its head.\<close>

definition holding :: "string list \<Rightarrow> world" where
  "holding q =
     \<lparr>assistant_id = Some 7,
      mem_queue = [1 \<mapsto> q],
      mem_now = [1 \<mapsto> (case q of [] \<Rightarrow> None | p # _ \<Rightarrow> Some p)],
      trace = []\<rparr>"

section \<open>Running the helpers\<close>

lemmas prog_defs = ret_def throw_def seq_def attempt_def swallow_def gets_def modify_def
  reads_def ext_def say_def

lemma log_fields [simp]:
  "mem_queue (log ev w) = mem_queue w" "mem_now (log ev w) = mem_now w"
  "assistant_id (log ev w) = assistant_id w" "trace (log ev w) = trace w @ [ev]"
  by (simp_all add: log_def)

lemma set_now_fields [simp]:
  "mem_queue (set_now c v w) = mem_queue w" "mem_now (set_now c v w) = (mem_now w)(c \<mapsto> v)"
  "assistant_id (set_now c v w) = assistant_id w" "trace (set_now c v w) = trace w"
  by (simp_all add: set_now_def)

lemma set_queue_fields [simp]:
  "mem_queue (set_queue c q w) = (mem_queue w)(c \<mapsto> q)" "mem_now (set_queue c q w) = mem_now w"
  "assistant_id (set_queue c q w) = assistant_id w" "trace (set_queue c q w) = trace w"
  by (simp_all add: set_queue_def)

lemma queue_of_simps [simp]:
  "queue_of (log ev w) c = queue_of w c"
  "queue_of (set_now c' v w) c = queue_of w c"
  "queue_of (set_queue c' q w) c = (if c = c' then q else queue_of w c)"
  "queue_of (w\<lparr>trace := t\<rparr>) c = queue_of w c"
  by (simp_all add: queue_of_def)

lemma now_of_simps [simp]:
  "now_of (log ev w) c = now_of w c"
  "now_of (set_queue c' q w) c = now_of w c"
  "now_of (set_now c' v w) c = (if c = c' then v else now_of w c)"
  "now_of (w\<lparr>trace := t\<rparr>) c = now_of w c"
  by (simp_all add: now_of_def)

lemma queue_of_cong: "mem_queue w' = mem_queue w \<Longrightarrow> queue_of w' c = queue_of w c"
  by (simp add: queue_of_def)

lemma now_of_cong: "mem_now w' = mem_now w \<Longrightarrow> now_of w' c = now_of w c"
  by (simp add: now_of_def)

lemma ensure_peer_run: "ensure_peer E c w = (Inr (), log (GetChat c) w)"
  by (simp add: ensure_peer_def prog_defs)

lemma cleanup_file_run: "cleanup_file E p w = (Inr (), log (Remove p) w)"
  by (simp add: cleanup_file_def prog_defs)

lemma assistant_in_group_run:
  "assistant_in_group E c w =
     (case assistant_id w of
        None \<Rightarrow> (Inr False, w)
      | Some a \<Rightarrow>
          if a = 0 then (Inr False, w)
          else (Inr (respond E (trace w @ [GetChat c]) (GetChatMember c a) = None),
                log (GetChatMember c a) (log (GetChat c) w)))"
  by (simp add: assistant_in_group_def ensure_peer_run prog_defs split: option.splits)

lemma assistant_in_group_world:
  assumes "assistant_in_group E c w = (r, w1)"
  shows "mem_queue w1 = mem_queue w \<and> mem_now w1 = mem_now w \<and>
         (\<exists>evs. trace w1 = trace w @ evs \<and> filter is_call_op evs = [] \<and>
                filter is_resolver_call evs = [] \<and> filter is_reply evs = [])"
  using assms by (auto simp: assistant_in_group_run split: option.splits if_splits)

lemma ensure_join_and_play_run:
  "ensure_join_and_play E c p w =
     (case respond E (trace w @ [GetChat c]) (ChangeStream c p) of
        None \<Rightarrow> (Inr (), log (ChangeStream c p) (log (GetChat c) w))
      | Some _ \<Rightarrow>
          (case respond E (trace w @ [GetChat c, ChangeStream c p]) (JoinGroupCall c p) of
             None \<Rightarrow> Inr () | Some e \<Rightarrow> Inl e,
           log (JoinGroupCall c p) (log (ChangeStream c p) (log (GetChat c) w))))"
  by (simp add: ensure_join_and_play_def ensure_peer_run prog_defs split: option.splits)

lemma play_next_run:
  "play_next E c w =
     (case queue_of w c of
        [] \<Rightarrow> (Inr (), log (LeaveGroupCall c) (set_now c None w))
      | p # _ \<Rightarrow> ensure_join_and_play E c p (set_now c (Some p) w))"
  by (simp add: play_next_def prog_defs split: list.splits)

lemma ytdlp_to_mp3_run:
  "ytdlp_to_mp3 E q w =
     (case respond E (trace w) (Makedirs tmp_dir) of
        Some e \<Rightarrow> (Inl e, log (Makedirs tmp_dir) w)
      | None \<Rightarrow>
          let cmd = ytdlp_cmd (if is_url q then q else ''ytsearch1:'' @ q);
              w1 = log (CheckCall cmd) (log (Makedirs tmp_dir) w);
              h = trace w @ [Makedirs tmp_dir, CheckCall cmd]
          in case respond E (trace w @ [Makedirs tmp_dir]) (CheckCall cmd) of
               Some e \<Rightarrow> (Inl e, w1)
             | None \<Rightarrow>
                 (case listdir E h tmp_dir of
                    Inl e \<Rightarrow> Inl e
                  | Inr names \<Rightarrow>
                      (case py_sort_desc (\<lambda>x. getmtime E h (os_path_join tmp_dir x))
                              (filter (\<lambda>f. endswith f ''.mp3'') names) of
                         Inl e \<Rightarrow> Inl e
                       | Inr files \<Rightarrow>
                           if files = [] then Inl (Exc ''RuntimeError'' ''No mp3 produced'')
                           else Inr (os_path_join tmp_dir (hd files))), w1))"
  by (simp add: ytdlp_to_mp3_def prog_defs Let_def split: option.splits sum.splits)

lemma ytdlp_to_mp3_Inr:
  assumes "ytdlp_to_mp3 E q w = (Inr p, w2)"
  shows "w2 = log (CheckCall (ytdlp_cmd (if is_url q then q else ''ytsearch1:'' @ q)))
               (log (Makedirs tmp_dir) w)"
  using assms by (auto simp: ytdlp_to_mp3_run Let_def split: option.splits sum.splits if_splits)

lemma ytdlp_to_mp3_Inl:
  assumes "ytdlp_to_mp3 E q w = (Inl e, w2)"
  shows "w2 = log (Makedirs tmp_dir) w \<or>
         w2 = log (CheckCall (ytdlp_cmd (if is_url q then q else ''ytsearch1:'' @ q)))
               (log (Makedirs tmp_dir) w)"
  using assms by (auto simp: ytdlp_to_mp3_run Let_def split: option.splits sum.splits if_splits)

section \<open>The presence check\<close>

text \<open>
  C8. \<^verbatim>\<open>assistant_in_group\<close> never raises: for every group id, world and environment it
  returns a boolean, and the boolean is \<open>True\<close> only when \<^verbatim>\<open>ASSISTANT_ID\<close> is set and
  not zero and the lookup \<^verbatim>\<open>get_chat_member\<close> returned. A lookup that raises gives
  \<open>False\<close>.
\<close>

theorem assistant_in_group_fails_closed:
  "fst (assistant_in_group E c w) =
     Inr (case assistant_id w of
            None \<Rightarrow> False
          | Some a \<Rightarrow> a \<noteq> 0 \<and> respond E (trace w @ [GetChat c]) (GetChatMember c a) = None)"
  by (simp add: assistant_in_group_run split: option.splits)

text \<open>
  C2. A \<^verbatim>\<open>/play\<close> message in a group that carries a query, when the presence check
  gives \<open>False\<close>: the handler returns, its only reply is the text saying that the assistant
  account is missing, it makes no call of the resolver and none of the call session, and
  both dictionaries are as before.
\<close>

theorem cmd_play_assistant_absent:
  assumes grp: "group_chat m = Some c"
    and arg: "2 \<le> length (parts_of m)"
    and gate: "fst (assistant_in_group E c w) = Inr False"
  shows "fst (cmd_play E m w) = Inr () \<and>
         filter is_reply (new_events w (snd (cmd_play E m w))) = [Reply AssistantMissing] \<and>
         filter is_resolver_call (new_events w (snd (cmd_play E m w))) = [] \<and>
         filter is_call_op (new_events w (snd (cmd_play E m w))) = [] \<and>
         mem_queue (snd (cmd_play E m w)) = mem_queue w \<and>
         mem_now (snd (cmd_play E m w)) = mem_now w"
proof -
  obtain w1 where g: "assistant_in_group E c w = (Inr False, w1)"
    using gate by (cases "assistant_in_group E c w") auto
  from assistant_in_group_world[OF g] obtain evs where
    w1: "mem_queue w1 = mem_queue w" "mem_now w1 = mem_now w" "trace w1 = trace w @ evs"
      "filter is_call_op evs = []" "filter is_resolver_call evs = []" "filter is_reply evs = []"
    by blast
  have run: "cmd_play E m w = (Inr (), log (Reply AssistantMissing) w1)"
    using grp arg g by (simp add: cmd_play_def Let_def seq_def say_def not_less)
  show ?thesis
    by (simp add: run new_events_def w1)
qed

theorem cmd_play_assistant_absent_witness:
  "group_chat (group_msg 1 ''/play song'') = Some 1 \<and>
   2 \<le> length (parts_of (group_msg 1 ''/play song'')) \<and>
   fst (assistant_in_group absent 1 (started (Some 7))) = Inr False \<and>
   fst (cmd_play absent (group_msg 1 ''/play song'') (started (Some 7))) = Inr () \<and>
   filter is_reply (new_events (started (Some 7))
      (snd (cmd_play absent (group_msg 1 ''/play song'') (started (Some 7)))))
     = [Reply AssistantMissing] \<and>
   filter is_resolver_call (new_events (started (Some 7))
      (snd (cmd_play absent (group_msg 1 ''/play song'') (started (Some 7))))) = [] \<and>
   mem_queue (snd (cmd_play absent (group_msg 1 ''/play song'') (started (Some 7))))
     = mem_queue (started (Some 7))"
proof -
  have a: "group_chat (group_msg 1 ''/play song'') = Some 1"
    by (simp add: group_chat_def group_msg_def)
  have b: "2 \<le> length (parts_of (group_msg 1 ''/play song''))"
    by code_simp
  have c: "fst (assistant_in_group absent 1 (started (Some 7))) = Inr False"
    by (simp add: assistant_in_group_run started_def absent_def)
  show ?thesis
    using cmd_play_assistant_absent [OF a b c] a b c by simp
qed

section \<open>Stop and skip\<close>

lemma cleanup_all_run:
  "cleanup_all E fs w = (Inr (), w\<lparr>trace := trace w @ map Remove fs\<rparr>)"
proof (induction fs arbitrary: w)
  case Nil
  show ?case by (simp add: ret_def)
next
  case (Cons f fs)
  show ?case by (simp add: seq_def cleanup_file_run Cons.IH log_def)
qed

lemma cmd_stop_run:
  assumes "group_chat m = Some c"
  shows "cmd_stop E m w =
           (Inr (), log (Reply StoppedCleared) (log (LeaveGroupCall c)
              (set_now c None (set_queue c [] (w\<lparr>trace := trace w @ map Remove (queue_of w c)\<rparr>)))))"
  using assms by (simp add: cmd_stop_def prog_defs cleanup_all_run)

text \<open>
  C5. \<^verbatim>\<open>/stop\<close> in a group, whatever the group's list holds (an empty list included):
  the handler returns, the list is empty and nothing is current afterwards, \<^verbatim>\<open>os.remove\<close>
  is called once for every path the list held, in order, then \<^verbatim>\<open>leave_group_call\<close> is
  called exactly once, and the reply is the text "stopped and cleared" whether or not those
  calls raised.
\<close>

theorem cmd_stop_clears:
  assumes "group_chat m = Some c"
  shows "fst (cmd_stop E m w) = Inr () \<and>
         queue_of (snd (cmd_stop E m w)) c = [] \<and>
         now_of (snd (cmd_stop E m w)) c = None \<and>
         new_events w (snd (cmd_stop E m w)) =
           map Remove (queue_of w c) @ [LeaveGroupCall c, Reply StoppedCleared]"
  by (simp add: cmd_stop_run [OF assms] new_events_def)

theorem cmd_stop_clears_witness:
  "group_chat (group_msg 1 ''/stop'') = Some 1 \<and>
   queue_of (snd (cmd_stop calm (group_msg 1 ''/stop'') (holding [''/tmp/tg_music/a.mp3'', ''/tmp/tg_music/b.mp3'']))) 1 = [] \<and>
   now_of (snd (cmd_stop calm (group_msg 1 ''/stop'') (holding [''/tmp/tg_music/a.mp3'', ''/tmp/tg_music/b.mp3'']))) 1 = None \<and>
   new_events (holding [''/tmp/tg_music/a.mp3'', ''/tmp/tg_music/b.mp3''])
     (snd (cmd_stop calm (group_msg 1 ''/stop'') (holding [''/tmp/tg_music/a.mp3'', ''/tmp/tg_music/b.mp3''])))
     = [Remove ''/tmp/tg_music/a.mp3'', Remove ''/tmp/tg_music/b.mp3'', LeaveGroupCall 1,
        Reply StoppedCleared] \<and>
   new_events (started None) (snd (cmd_stop calm (group_msg 1 ''/stop'') (started None)))
     = [LeaveGroupCall 1, Reply StoppedCleared]"
proof -
  have g: "group_chat (group_msg 1 ''/stop'') = Some 1"
    by (simp add: group_chat_def group_msg_def)
  have q: "queue_of (holding [''/tmp/tg_music/a.mp3'', ''/tmp/tg_music/b.mp3'']) 1
             = [''/tmp/tg_music/a.mp3'', ''/tmp/tg_music/b.mp3'']"
    by (simp add: holding_def queue_of_def)
  have q0: "queue_of (started None) 1 = []"
    by (simp add: started_def queue_of_def)
  show ?thesis
    using cmd_stop_clears [OF g, of calm "holding [''/tmp/tg_music/a.mp3'', ''/tmp/tg_music/b.mp3'']"]
      cmd_stop_clears [OF g, of calm "started None"] g
    by (simp add: q q0)
qed

lemma cmd_skip_run:
  assumes "group_chat m = Some c" and "queue_of w c = a # b # rest"
  shows "cmd_skip E m w =
     (case ensure_join_and_play E c b (set_now c (Some b) (log (Remove a) (set_queue c (b # rest) w))) of
        (Inr _, w') \<Rightarrow> (Inr (), log (Reply Skipped) w')
      | (Inl e, w') \<Rightarrow> (Inr (), log (Reply (NextPlayFailed (take 180 (exc_str e)))) w'))"
  using assms
  by (simp add: cmd_skip_def prog_defs cleanup_file_run play_next_run split: prod.splits sum.splits)

text \<open>
  C4. \<^verbatim>\<open>/skip\<close> in a group whose list holds two or more items \<open>a, b, ...\<close>: the head
  \<open>a\<close> is popped and its file removed, \<open>b\<close> becomes current, and
  \<^verbatim>\<open>ensure_join_and_play\<close> runs exactly once, with \<open>b\<close>: one \<^verbatim>\<open>change_stream\<close> with
  \<open>b\<close>, followed by one \<^verbatim>\<open>join_group_call\<close> with \<open>b\<close> only when the change raised.
  No other call is made; the reply is "skipped", or the failure of the join.
\<close>

theorem cmd_skip_promotes_second:
  assumes "group_chat m = Some c" and "queue_of w c = a # b # rest"
  shows "fst (cmd_skip E m w) = Inr () \<and>
         queue_of (snd (cmd_skip E m w)) c = b # rest \<and>
         now_of (snd (cmd_skip E m w)) c = Some b \<and>
         new_events w (snd (cmd_skip E m w)) =
           [Remove a, GetChat c, ChangeStream c b] @
           (case respond E (trace w @ [Remove a, GetChat c]) (ChangeStream c b) of
              None \<Rightarrow> [Reply Skipped]
            | Some _ \<Rightarrow>
                [JoinGroupCall c b,
                 Reply (case respond E (trace w @ [Remove a, GetChat c, ChangeStream c b])
                               (JoinGroupCall c b) of
                          None \<Rightarrow> Skipped
                        | Some e \<Rightarrow> NextPlayFailed (take 180 (exc_str e)))])"
  by (simp add: cmd_skip_run [OF assms] ensure_join_and_play_run new_events_def
      split: option.splits)

theorem cmd_skip_promotes_second_witness:
  "group_chat (group_msg 1 ''/skip'') = Some 1 \<and>
   queue_of (holding [''/tmp/tg_music/a.mp3'', ''/tmp/tg_music/b.mp3'', ''/tmp/tg_music/c.mp3'']) 1
     = [''/tmp/tg_music/a.mp3'', ''/tmp/tg_music/b.mp3'', ''/tmp/tg_music/c.mp3''] \<and>
   queue_of (snd (cmd_skip calm (group_msg 1 ''/skip'')
       (holding [''/tmp/tg_music/a.mp3'', ''/tmp/tg_music/b.mp3'', ''/tmp/tg_music/c.mp3'']))) 1
     = [''/tmp/tg_music/b.mp3'', ''/tmp/tg_music/c.mp3''] \<and>
   now_of (snd (cmd_skip calm (group_msg 1 ''/skip'')
       (holding [''/tmp/tg_music/a.mp3'', ''/tmp/tg_music/b.mp3'', ''/tmp/tg_music/c.mp3'']))) 1
     = Some ''/tmp/tg_music/b.mp3'' \<and>
   new_events (holding [''/tmp/tg_music/a.mp3'', ''/tmp/tg_music/b.mp3'', ''/tmp/tg_music/c.mp3''])
     (snd (cmd_skip calm (group_msg 1 ''/skip'')
       (holding [''/tmp/tg_music/a.mp3'', ''/tmp/tg_music/b.mp3'', ''/tmp/tg_music/c.mp3''])))
     = [Remove ''/tmp/tg_music/a.mp3'', GetChat 1, ChangeStream 1 ''/tmp/tg_music/b.mp3'',
        Reply Skipped]"
proof -
  have g: "group_chat (group_msg 1 ''/skip'') = Some 1"
    by (simp add: group_chat_def group_msg_def)
  have q: "queue_of (holding [''/tmp/tg_music/a.mp3'', ''/tmp/tg_music/b.mp3'', ''/tmp/tg_music/c.mp3'']) 1
             = [''/tmp/tg_music/a.mp3'', ''/tmp/tg_music/b.mp3'', ''/tmp/tg_music/c.mp3'']"
    by (simp add: holding_def queue_of_def)
  show ?thesis
    using cmd_skip_promotes_second [OF g q, of calm] g q
    by (simp add: calm_def)
qed

section \<open>Play\<close>

lemma cmd_play_run:
  assumes "group_chat m = Some c" and "2 \<le> length (parts_of m)"
    and "assistant_in_group E c w = (Inr True, w1)"
  shows "cmd_play E m w =
     (case ytdlp_to_mp3 E (normalize_music_query (parts_of m ! 1)) (log (Reply Searching) w1) of
        (Inl e, w2) \<Rightarrow> (Inr (), log (EditText (ResolveFailed (take 180 (exc_str e)))) w2)
      | (Inr p, w2) \<Rightarrow>
          if queue_of w2 c = [] then
            (case ensure_join_and_play E c p (set_now c (Some p) (set_queue c [p] w2)) of
               (Inr _, w3) \<Rightarrow> (Inr (), log (EditText (Playing (safe_basename (Some p)))) w3)
             | (Inl e, w3) \<Rightarrow> (Inr (), log (EditText (JoinFailed (take 180 (exc_str e)))) w3))
          else (Inr (), log (EditText (Queued (safe_basename (Some p))))
                          (set_queue c (queue_of w2 c @ [p]) w2)))"
  using assms
  by (simp add: cmd_play_def Let_def not_less prog_defs play_next_run
      split: prod.splits sum.splits)

lemma ytdlp_to_mp3_world:
  assumes "ytdlp_to_mp3 E q w = (r, w2)"
  shows "mem_queue w2 = mem_queue w \<and> mem_now w2 = mem_now w \<and>
         (\<exists>evs. trace w2 = trace w @ evs \<and> filter is_call_op evs = [] \<and>
                filter is_reply evs = [])"
  using assms by (auto simp: ytdlp_to_mp3_run Let_def split: option.splits sum.splits if_splits)




text \<open>
  C7. A \<^verbatim>\<open>/play\<close> that resolves to \<open>p\<close> on an empty list, when both
  \<^verbatim>\<open>change_stream\<close> and the fallback \<^verbatim>\<open>join_group_call\<close> raise: \<open>p\<close> stays in the list
  and stays current (no rollback), each of the two calls was made exactly once (no retry),
  and the reply is the join-failure text with the text of the join's exception, which is not
  the resolver-failure text.
\<close>

theorem cmd_play_join_fails:
  assumes grp: "group_chat m = Some c"
    and arg: "2 \<le> length (parts_of m)"
    and gate: "assistant_in_group E c w = (Inr True, w1)"
    and res: "ytdlp_to_mp3 E (normalize_music_query (parts_of m ! 1)) (log (Reply Searching) w1)
                = (Inr p, w2)"
    and empty: "queue_of w c = []"
    and change: "respond E (trace w2 @ [GetChat c]) (ChangeStream c p) = Some e1"
    and join: "respond E (trace w2 @ [GetChat c, ChangeStream c p]) (JoinGroupCall c p) = Some e2"
  shows "fst (cmd_play E m w) = Inr () \<and>
         queue_of (snd (cmd_play E m w)) c = [p] \<and>
         now_of (snd (cmd_play E m w)) c = Some p \<and>
         filter is_call_op (new_events w (snd (cmd_play E m w)))
           = [ChangeStream c p, JoinGroupCall c p] \<and>
         filter is_reply (new_events w (snd (cmd_play E m w)))
           = [Reply Searching, EditText (JoinFailed (take 180 (exc_str e2)))] \<and>
         (\<forall>d. last (trace (snd (cmd_play E m w))) \<noteq> EditText (ResolveFailed d))"
proof -
  from assistant_in_group_world[OF gate] obtain evs where
    w1: "mem_queue w1 = mem_queue w" "mem_now w1 = mem_now w" "trace w1 = trace w @ evs"
      "filter is_call_op evs = []" "filter is_resolver_call evs = []" "filter is_reply evs = []"
    by blast
  note w2 = ytdlp_to_mp3_Inr [OF res]
  have q2: "queue_of w2 c = []"
    using empty by (simp add: w2 queue_of_cong [OF w1(1)])
  have t2: "trace w2 = trace w @ evs @ [Reply Searching, Makedirs tmp_dir,
              CheckCall (ytdlp_cmd (if is_url (normalize_music_query (parts_of m ! 1))
                                   then normalize_music_query (parts_of m ! 1)
                                   else ''ytsearch1:'' @ normalize_music_query (parts_of m ! 1)))]"
    by (simp add: w2 w1)
  have run: "cmd_play E m w =
       (Inr (), log (EditText (JoinFailed (take 180 (exc_str e2))))
          (log (JoinGroupCall c p) (log (ChangeStream c p) (log (GetChat c)
             (set_now c (Some p) (set_queue c [p] w2))))))"
    by (simp add: cmd_play_run [OF grp arg gate] res q2 ensure_join_and_play_run change join
        del: One_nat_def)
  show ?thesis
    by (simp add: run new_events_def t2 w1)
qed

theorem cmd_play_join_fails_witness:
  "queue_of (snd (cmd_play no_voice_chat (group_msg 1 ''/play song'') (started (Some 7)))) 1
     = [''/tmp/tg_music/song.mp3''] \<and>
   now_of (snd (cmd_play no_voice_chat (group_msg 1 ''/play song'') (started (Some 7)))) 1
     = Some ''/tmp/tg_music/song.mp3'' \<and>
   filter is_call_op (new_events (started (Some 7))
       (snd (cmd_play no_voice_chat (group_msg 1 ''/play song'') (started (Some 7)))))
     = [ChangeStream 1 ''/tmp/tg_music/song.mp3'', JoinGroupCall 1 ''/tmp/tg_music/song.mp3''] \<and>
   filter is_reply (new_events (started (Some 7))
       (snd (cmd_play no_voice_chat (group_msg 1 ''/play song'') (started (Some 7)))))
     = [Reply Searching, EditText (JoinFailed ''no active group call'')]"
proof -
  let ?m = "group_msg 1 ''/play song''"
  let ?q = "normalize_music_query (parts_of ?m ! 1)"
  let ?w = "started (Some 7)"
  let ?p = "''/tmp/tg_music/song.mp3''"
  have g: "group_chat ?m = Some 1"
    by (simp add: group_chat_def group_msg_def)
  have a: "2 \<le> length (parts_of ?m)"
    by code_simp
  let ?w1 = "snd (assistant_in_group no_voice_chat 1 ?w)"
  let ?w2 = "snd (ytdlp_to_mp3 no_voice_chat ?q (log (Reply Searching) ?w1))"
  have gate: "assistant_in_group no_voice_chat 1 ?w = (Inr True, ?w1)"
    by (simp add: assistant_in_group_run started_def no_voice_chat_def)
  have res: "ytdlp_to_mp3 no_voice_chat ?q (log (Reply Searching) ?w1) = (Inr ?p, ?w2)"
    by (simp add: prod_eq_iff ytdlp_to_mp3_run no_voice_chat_def Let_def py_sort_desc_def
        endswith_def os_path_join_def startswith_def tmp_dir_def del: One_nat_def)
  have e: "queue_of ?w 1 = []"
    by (simp add: started_def queue_of_def)
  have ch: "respond no_voice_chat (trace ?w2 @ [GetChat 1]) (ChangeStream 1 ?p)
              = Some (Exc ''NotInGroupCallError'' ''not in a group call'')"
    by (simp add: no_voice_chat_def)
  have jn: "respond no_voice_chat (trace ?w2 @ [GetChat 1, ChangeStream 1 ?p]) (JoinGroupCall 1 ?p)
              = Some (Exc ''NoActiveGroupCall'' ''no active group call'')"
    by (simp add: no_voice_chat_def)
  show ?thesis
    using cmd_play_join_fails [OF g a gate res e ch jn]
    by simp
qed

text \<open>
  C3 (amended). A \<^verbatim>\<open>/play\<close> with a query in a group, the gate open, and the resolver
  returning \<open>p\<close>. If the group's list was empty, \<open>p\<close> becomes its only item and is
  current, and \<^verbatim>\<open>ensure_join_and_play\<close> runs exactly once: one \<^verbatim>\<open>change_stream\<close> with
  \<open>p\<close>, followed by one \<^verbatim>\<open>join_group_call\<close> only when the change raised. If the list was
  not empty, \<open>p\<close> is appended, the current item is unchanged, no call of the call session
  is made, and the reply is "Queued:" with the display name of \<open>p\<close>; it does not carry the
  position in the queue.
\<close>

theorem cmd_play_resolved:
  assumes grp: "group_chat m = Some c"
    and arg: "2 \<le> length (parts_of m)"
    and gate: "assistant_in_group E c w = (Inr True, w1)"
    and res: "ytdlp_to_mp3 E (normalize_music_query (parts_of m ! 1)) (log (Reply Searching) w1)
                = (Inr p, w2)"
  shows "(queue_of w c = [] \<longrightarrow>
            queue_of (snd (cmd_play E m w)) c = [p] \<and>
            now_of (snd (cmd_play E m w)) c = Some p \<and>
            filter is_call_op (new_events w (snd (cmd_play E m w)))
              = ChangeStream c p #
                (case respond E (trace w2 @ [GetChat c]) (ChangeStream c p) of
                   None \<Rightarrow> [] | Some _ \<Rightarrow> [JoinGroupCall c p])) \<and>
         (queue_of w c \<noteq> [] \<longrightarrow>
            queue_of (snd (cmd_play E m w)) c = queue_of w c @ [p] \<and>
            now_of (snd (cmd_play E m w)) c = now_of w c \<and>
            filter is_call_op (new_events w (snd (cmd_play E m w))) = [] \<and>
            filter is_reply (new_events w (snd (cmd_play E m w)))
              = [Reply Searching, EditText (Queued (safe_basename (Some p)))])"
proof -
  from assistant_in_group_world[OF gate] obtain evs where
    w1: "mem_queue w1 = mem_queue w" "mem_now w1 = mem_now w" "trace w1 = trace w @ evs"
      "filter is_call_op evs = []" "filter is_resolver_call evs = []" "filter is_reply evs = []"
    by blast
  note w2 = ytdlp_to_mp3_Inr [OF res]
  have q2: "queue_of w2 c = queue_of w c"
    by (simp add: w2 queue_of_cong [OF w1(1)])
  have n2: "now_of w2 c = now_of w c"
    by (simp add: w2 now_of_cong [OF w1(2)])
  have t2: "trace w2 = trace w @ evs @ [Reply Searching, Makedirs tmp_dir,
              CheckCall (ytdlp_cmd (if is_url (normalize_music_query (parts_of m ! 1))
                                   then normalize_music_query (parts_of m ! 1)
                                   else ''ytsearch1:'' @ normalize_music_query (parts_of m ! 1)))]"
    by (simp add: w2 w1)
  have first: "queue_of (snd (cmd_play E m w)) c = [p] \<and>
            now_of (snd (cmd_play E m w)) c = Some p \<and>
            filter is_call_op (new_events w (snd (cmd_play E m w)))
              = ChangeStream c p #
                (case respond E (trace w2 @ [GetChat c]) (ChangeStream c p) of
                   None \<Rightarrow> [] | Some _ \<Rightarrow> [JoinGroupCall c p])"
    if "queue_of w c = []"
    using that q2
    by (simp add: cmd_play_run [OF grp arg gate] res ensure_join_and_play_run new_events_def
        t2 w1 del: One_nat_def split: option.splits)
  have later: "queue_of (snd (cmd_play E m w)) c = queue_of w c @ [p] \<and>
            now_of (snd (cmd_play E m w)) c = now_of w c \<and>
            filter is_call_op (new_events w (snd (cmd_play E m w))) = [] \<and>
            filter is_reply (new_events w (snd (cmd_play E m w)))
              = [Reply Searching, EditText (Queued (safe_basename (Some p)))]"
    if "queue_of w c \<noteq> []"
    using that q2 n2
    by (simp add: cmd_play_run [OF grp arg gate] res new_events_def t2 w1 del: One_nat_def)
  from first later show ?thesis by blast
qed

theorem cmd_play_resolved_witness:
  "queue_of (snd (cmd_play calm (group_msg 1 ''/play song'') (started (Some 7)))) 1
     = [''/tmp/tg_music/song.mp3''] \<and>
   now_of (snd (cmd_play calm (group_msg 1 ''/play song'') (started (Some 7)))) 1
     = Some ''/tmp/tg_music/song.mp3'' \<and>
   filter is_call_op (new_events (started (Some 7))
       (snd (cmd_play calm (group_msg 1 ''/play song'') (started (Some 7)))))
     = [ChangeStream 1 ''/tmp/tg_music/song.mp3''] \<and>
   queue_of (snd (cmd_play calm (group_msg 1 ''/play song'') (holding [''/tmp/tg_music/a.mp3'']))) 1
     = [''/tmp/tg_music/a.mp3'', ''/tmp/tg_music/song.mp3''] \<and>
   now_of (snd (cmd_play calm (group_msg 1 ''/play song'') (holding [''/tmp/tg_music/a.mp3'']))) 1
     = Some ''/tmp/tg_music/a.mp3'' \<and>
   filter is_call_op (new_events (holding [''/tmp/tg_music/a.mp3''])
       (snd (cmd_play calm (group_msg 1 ''/play song'') (holding [''/tmp/tg_music/a.mp3'']))))
     = [] \<and>
   filter is_reply (new_events (holding [''/tmp/tg_music/a.mp3''])
       (snd (cmd_play calm (group_msg 1 ''/play song'') (holding [''/tmp/tg_music/a.mp3'']))))
     = [Reply Searching, EditText (Queued ''song.mp3'')]"
proof -
  let ?m = "group_msg 1 ''/play song''"
  let ?q = "normalize_music_query (parts_of ?m ! 1)"
  have g: "group_chat ?m = Some 1"
    by (simp add: group_chat_def group_msg_def)
  have a: "2 \<le> length (parts_of ?m)"
    by code_simp
  have name: "safe_basename (Some ''/tmp/tg_music/song.mp3'') = ''song.mp3''"
    by code_simp
  have res: "fst (ytdlp_to_mp3 calm ?q w) = Inr ''/tmp/tg_music/song.mp3''" for w
    by (simp add: ytdlp_to_mp3_run calm_def Let_def py_sort_desc_def endswith_def
        os_path_join_def startswith_def tmp_dir_def del: One_nat_def)
  let ?w = "started (Some 7)"
  let ?w1 = "snd (assistant_in_group calm 1 ?w)"
  let ?w2 = "snd (ytdlp_to_mp3 calm ?q (log (Reply Searching) ?w1))"
  have gate: "assistant_in_group calm 1 ?w = (Inr True, ?w1)"
    by (simp add: assistant_in_group_run started_def calm_def)
  have res1: "ytdlp_to_mp3 calm ?q (log (Reply Searching) ?w1)
                = (Inr ''/tmp/tg_music/song.mp3'', ?w2)"
    using res [of "log (Reply Searching) ?w1"] by (simp add: prod_eq_iff del: One_nat_def)
  have e: "queue_of ?w 1 = []"
    by (simp add: started_def queue_of_def)
  let ?v = "holding [''/tmp/tg_music/a.mp3'']"
  let ?v1 = "snd (assistant_in_group calm 1 ?v)"
  let ?v2 = "snd (ytdlp_to_mp3 calm ?q (log (Reply Searching) ?v1))"
  have gate': "assistant_in_group calm 1 ?v = (Inr True, ?v1)"
    by (simp add: assistant_in_group_run holding_def calm_def)
  have res2: "ytdlp_to_mp3 calm ?q (log (Reply Searching) ?v1)
                = (Inr ''/tmp/tg_music/song.mp3'', ?v2)"
    using res [of "log (Reply Searching) ?v1"] by (simp add: prod_eq_iff del: One_nat_def)
  have ne: "queue_of ?v 1 = [''/tmp/tg_music/a.mp3'']" "now_of ?v 1 = Some ''/tmp/tg_music/a.mp3''"
    by (simp_all add: holding_def queue_of_def now_of_def)
  have c: "respond calm h ev = None" for h ev
    by (simp add: calm_def)
  show ?thesis
    using cmd_play_resolved [OF g a gate res1] cmd_play_resolved [OF g a gate' res2]
    by (simp add: e ne name c del: One_nat_def)
qed

text \<open>The reply to a queued request is the same for a queue of two and a queue of three.\<close>

theorem queued_reply_counterexample:
  "filter is_reply (new_events (holding [''/tmp/tg_music/a.mp3''])
       (snd (cmd_play calm (group_msg 1 ''/play song'') (holding [''/tmp/tg_music/a.mp3'']))))
     = [Reply Searching, EditText (Queued ''song.mp3'')] \<and>
   length (queue_of (snd (cmd_play calm (group_msg 1 ''/play song'')
       (holding [''/tmp/tg_music/a.mp3'']))) 1) = 2 \<and>
   filter is_reply (new_events (holding [''/tmp/tg_music/a.mp3'', ''/tmp/tg_music/b.mp3''])
       (snd (cmd_play calm (group_msg 1 ''/play song'')
          (holding [''/tmp/tg_music/a.mp3'', ''/tmp/tg_music/b.mp3'']))))
     = [Reply Searching, EditText (Queued ''song.mp3'')] \<and>
   length (queue_of (snd (cmd_play calm (group_msg 1 ''/play song'')
       (holding [''/tmp/tg_music/a.mp3'', ''/tmp/tg_music/b.mp3'']))) 1) = 3"
  by code_simp

section \<open>The resolver\<close>

lemma startswith_prefix: "startswith s p \<longleftrightarrow> prefix p s"
proof
  assume "startswith s p"
  then have "take (length p) s = p" by (simp add: startswith_def)
  then show "prefix p s" by (metis take_is_prefix)
next
  assume "prefix p s"
  then show "startswith s p" by (auto simp: prefix_def startswith_def)
qed

text \<open>
  C9. \<^verbatim>\<open>is_url s\<close> holds exactly when \<open>s\<close> starts with \<^verbatim>\<open>http://\<close> or
  \<^verbatim>\<open>https://\<close>. The resolver hands \<^verbatim>\<open>yt-dlp\<close> one command; its target (the last
  argument) is \<open>s\<close> itself in that case and \<^verbatim>\<open>ytsearch1:\<close> followed by \<open>s\<close>, a search
  for the single best result, in every other case.
\<close>

theorem is_url_iff_scheme:
  "(is_url s \<longleftrightarrow> prefix ''http://'' s \<or> prefix ''https://'' s) \<and>
   (respond E (trace w) (Makedirs tmp_dir) = None \<longrightarrow>
      check_calls (new_events w (snd (ytdlp_to_mp3 E s w)))
        = [ytdlp_cmd (if prefix ''http://'' s \<or> prefix ''https://'' s then s
                      else ''ytsearch1:'' @ s)]) \<and>
   last (ytdlp_cmd t) = t"
proof -
  have u: "is_url s \<longleftrightarrow> prefix ''http://'' s \<or> prefix ''https://'' s"
    by (simp only: is_url_def startswith_prefix)
  have c: "check_calls (new_events w (snd (ytdlp_to_mp3 E s w)))
        = [ytdlp_cmd (if is_url s then s else ''ytsearch1:'' @ s)]"
    if "respond E (trace w) (Makedirs tmp_dir) = None"
    using that by (simp add: ytdlp_to_mp3_run Let_def new_events_def split: option.splits)
  have l: "last (ytdlp_cmd t) = t"
    by (simp add: ytdlp_cmd_def)
  from c show ?thesis unfolding u using l u by blast
qed

theorem is_url_iff_scheme_witness:
  "is_url ''https://youtu.be/abc'' \<and> \<not> is_url ''httpx://song'' \<and>
   respond calm (trace (started None)) (Makedirs tmp_dir) = None \<and>
   check_calls (new_events (started None) (snd (ytdlp_to_mp3 calm ''https://youtu.be/abc'' (started None))))
     = [ytdlp_cmd ''https://youtu.be/abc''] \<and>
   check_calls (new_events (started None) (snd (ytdlp_to_mp3 calm ''httpx://song'' (started None))))
     = [ytdlp_cmd ''ytsearch1:httpx://song'']"
proof -
  have mk: "respond calm (trace (started None)) (Makedirs tmp_dir) = None"
    by (simp add: calm_def)
  have p1: "prefix ''http://'' ''https://youtu.be/abc'' \<or> prefix ''https://'' ''https://youtu.be/abc''"
    by simp
  have p2: "\<not> (prefix ''http://'' ''httpx://song'' \<or> prefix ''https://'' ''httpx://song'')"
    by simp
  show ?thesis
    using is_url_iff_scheme [of "''https://youtu.be/abc''" calm "started None"]
      is_url_iff_scheme [of "''httpx://song''" calm "started None"] mk p1 p2
    by simp
qed

lemma sorted_le_last:
  fixes xs :: "real list"
  shows "sorted xs \<Longrightarrow> x \<in> set xs \<Longrightarrow> x \<le> last xs"
  by (induction xs) auto

lemma decorate_Inl:
  "decorate k xs = Inl e \<Longrightarrow> \<exists>x \<in> set xs. k x = Inl e"
  by (induction xs) (auto split: sum.splits)

lemma decorate_Inr:
  "decorate k xs = Inr ys \<Longrightarrow> map fst ys = xs \<and> (\<forall>(x, t) \<in> set ys. k x = Inr t)"
  by (induction xs arbitrary: ys) (auto split: sum.splits)

lemma decorate_total:
  "(\<forall>x \<in> set xs. \<exists>t. k x = Inr t) \<Longrightarrow> \<exists>ys. decorate k xs = Inr ys"
  by (induction xs) auto

lemma decorate_raises:
  "x \<in> set xs \<Longrightarrow> k x = Inl e \<Longrightarrow> \<exists>e'. decorate k xs = Inl e'"
  by (induction xs) (auto split: sum.splits)

lemma py_sort_desc_Inl:
  "py_sort_desc k xs = Inl e \<Longrightarrow> \<exists>x \<in> set xs. k x = Inl e"
  by (auto simp: py_sort_desc_def split: sum.splits dest: decorate_Inl)

lemma py_sort_desc_raises:
  "x \<in> set xs \<Longrightarrow> k x = Inl e \<Longrightarrow> \<exists>e'. py_sort_desc k xs = Inl e'"
  using decorate_raises [of x xs k e] by (auto simp: py_sort_desc_def)

lemma py_sort_desc_Inr:
  assumes "\<forall>x \<in> set xs. \<exists>t. k x = Inr t"
  shows "\<exists>zs. py_sort_desc k xs = Inr zs \<and> (zs = [] \<longleftrightarrow> xs = []) \<and>
           (xs \<noteq> [] \<longrightarrow> hd zs \<in> set xs \<and>
              (\<forall>g \<in> set xs. \<forall>tf tg. k (hd zs) = Inr tf \<and> k g = Inr tg \<longrightarrow> tg \<le> tf))"
proof -
  from decorate_total [OF assms] obtain ys where d: "decorate k xs = Inr ys"
    by blast
  from decorate_Inr [OF d] have fs: "map fst ys = xs" and ks: "\<forall>(x, t) \<in> set ys. k x = Inr t"
    by blast+
  let ?S = "sort_key snd (rev ys)"
  let ?zs = "map fst (rev ?S)"
  have run: "py_sort_desc k xs = Inr ?zs"
    by (simp add: py_sort_desc_def d)
  have len: "length ?S = length xs"
    using fs by (metis length_sort length_rev length_map)
  have nil: "?zs = [] \<longleftrightarrow> xs = []"
    using len by (metis length_0_conv map_is_Nil_conv rev_is_Nil_conv)
  have best: "hd ?zs \<in> set xs \<and>
              (\<forall>g \<in> set xs. \<forall>tf tg. k (hd ?zs) = Inr tf \<and> k g = Inr tg \<longrightarrow> tg \<le> tf)"
    if ne: "xs \<noteq> []"
  proof -
    have sne: "?S \<noteq> []" using len ne by (metis length_0_conv)
    have hd: "hd ?zs = fst (last ?S)"
      using sne by (simp add: hd_map hd_rev)
    have lin: "last ?S \<in> set ys"
      using last_in_set [OF sne] by simp
    then have mem: "fst (last ?S) \<in> set xs"
      using fs by (metis image_eqI set_map)
    have klast: "k (fst (last ?S)) = Inr (snd (last ?S))"
      using ks lin by (cases "last ?S") auto
    have "tg \<le> tf" if g: "g \<in> set xs" and tf: "k (fst (last ?S)) = Inr tf" and tg: "k g = Inr tg"
      for g tf tg
    proof -
      from g fs obtain y where y: "y \<in> set ys" "fst y = g"
        by (metis (no_types, lifting) imageE set_map)
      then have "k g = Inr (snd y)" using ks by (cases y) auto
      then have sy: "snd y = tg" using tg by simp
      have "sorted (map snd ?S)" by simp
      moreover have "snd y \<in> set (map snd ?S)" using y by simp
      ultimately have "snd y \<le> last (map snd ?S)" by (rule sorted_le_last)
      then have "snd y \<le> snd (last ?S)" using sne by (simp add: last_map)
      then show ?thesis using sy klast tf by simp
    qed
    then show ?thesis using hd mem by simp
  qed
  show ?thesis
    using run nil best by blast
qed

text \<open>
  C10 (amended). When \<^verbatim>\<open>os.makedirs\<close> and \<^verbatim>\<open>yt-dlp\<close> have returned: if \<^verbatim>\<open>os.listdir\<close>
  raises, the resolver raises that exception; if \<^verbatim>\<open>os.path.getmtime\<close> raises for a listed
  name ending in \<^verbatim>\<open>.mp3\<close>, the resolver raises the exception of such a name. When neither
  raises, the resolver raises exactly when the directory \<^verbatim>\<open>/tmp/tg_music\<close> lists no name
  ending in \<^verbatim>\<open>.mp3\<close>, and the error is then "No mp3 produced"; otherwise it returns the path
  of an mp3 file of that directory whose modification time is the greatest. The choice looks
  at the directory only, so the file may be one that an earlier request left there.
\<close>

theorem ytdlp_to_mp3_newest:
  assumes mk: "respond E (trace w) (Makedirs tmp_dir) = None"
    and dl: "respond E (trace w @ [Makedirs tmp_dir])
               (CheckCall (ytdlp_cmd (if is_url q then q else ''ytsearch1:'' @ q))) = None"
  shows "let h = trace w @ [Makedirs tmp_dir,
                            CheckCall (ytdlp_cmd (if is_url q then q else ''ytsearch1:'' @ q))]
         in case listdir E h tmp_dir of
              Inl e \<Rightarrow> fst (ytdlp_to_mp3 E q w) = Inl e
            | Inr names \<Rightarrow>
                let mp3s = filter (\<lambda>f. endswith f ''.mp3'') names in
                ((\<exists>f \<in> set mp3s. \<exists>e. getmtime E h (os_path_join tmp_dir f) = Inl e) \<longrightarrow>
                   (\<exists>f \<in> set mp3s. \<exists>e. getmtime E h (os_path_join tmp_dir f) = Inl e \<and>
                       fst (ytdlp_to_mp3 E q w) = Inl e)) \<and>
                ((\<forall>f \<in> set mp3s. \<exists>t. getmtime E h (os_path_join tmp_dir f) = Inr t) \<longrightarrow>
                   ((\<exists>e. fst (ytdlp_to_mp3 E q w) = Inl e) \<longleftrightarrow> mp3s = []) \<and>
                   (mp3s = [] \<longrightarrow>
                      fst (ytdlp_to_mp3 E q w) = Inl (Exc ''RuntimeError'' ''No mp3 produced'')) \<and>
                   (mp3s \<noteq> [] \<longrightarrow>
                      (\<exists>f \<in> set mp3s.
                         fst (ytdlp_to_mp3 E q w) = Inr (os_path_join tmp_dir f) \<and>
                         (\<forall>g \<in> set mp3s. \<forall>tf tg.
                            getmtime E h (os_path_join tmp_dir f) = Inr tf \<and>
                            getmtime E h (os_path_join tmp_dir g) = Inr tg \<longrightarrow> tg \<le> tf))))"
proof -
  define h where "h = trace w @ [Makedirs tmp_dir,
                            CheckCall (ytdlp_cmd (if is_url q then q else ''ytsearch1:'' @ q))]"
  define k where "k = (\<lambda>x. getmtime E h (os_path_join tmp_dir x))"
  have run: "fst (ytdlp_to_mp3 E q w) =
               (case listdir E h tmp_dir of
                  Inl e \<Rightarrow> Inl e
                | Inr names \<Rightarrow>
                    (case py_sort_desc k (filter (\<lambda>f. endswith f ''.mp3'') names) of
                       Inl e \<Rightarrow> Inl e
                     | Inr files \<Rightarrow>
                         if files = [] then Inl (Exc ''RuntimeError'' ''No mp3 produced'')
                         else Inr (os_path_join tmp_dir (hd files))))"
    using mk dl unfolding h_def k_def by (simp add: ytdlp_to_mp3_run Let_def)
  have main: "case listdir E h tmp_dir of
              Inl e \<Rightarrow> fst (ytdlp_to_mp3 E q w) = Inl e
            | Inr names \<Rightarrow>
                let mp3s = filter (\<lambda>f. endswith f ''.mp3'') names in
                ((\<exists>f \<in> set mp3s. \<exists>e. k f = Inl e) \<longrightarrow>
                   (\<exists>f \<in> set mp3s. \<exists>e. k f = Inl e \<and> fst (ytdlp_to_mp3 E q w) = Inl e)) \<and>
                ((\<forall>f \<in> set mp3s. \<exists>t. k f = Inr t) \<longrightarrow>
                   ((\<exists>e. fst (ytdlp_to_mp3 E q w) = Inl e) \<longleftrightarrow> mp3s = []) \<and>
                   (mp3s = [] \<longrightarrow>
                      fst (ytdlp_to_mp3 E q w) = Inl (Exc ''RuntimeError'' ''No mp3 produced'')) \<and>
                   (mp3s \<noteq> [] \<longrightarrow>
                      (\<exists>f \<in> set mp3s.
                         fst (ytdlp_to_mp3 E q w) = Inr (os_path_join tmp_dir f) \<and>
                         (\<forall>g \<in> set mp3s. \<forall>tf tg.
                            k f = Inr tf \<and> k g = Inr tg \<longrightarrow> tg \<le> tf))))"
  proof (cases "listdir E h tmp_dir")
    case (Inl e)
    then show ?thesis by (simp add: run)
  next
    case (Inr names)
    define mp3s where "mp3s = filter (\<lambda>f. endswith f ''.mp3'') names"
    have r: "fst (ytdlp_to_mp3 E q w) =
               (case py_sort_desc k mp3s of
                  Inl e \<Rightarrow> Inl e
                | Inr files \<Rightarrow>
                    if files = [] then Inl (Exc ''RuntimeError'' ''No mp3 produced'')
                    else Inr (os_path_join tmp_dir (hd files)))"
      by (simp add: run Inr mp3s_def)
    have bad: "\<exists>f \<in> set mp3s. \<exists>e. k f = Inl e \<and> fst (ytdlp_to_mp3 E q w) = Inl e"
      if "\<exists>f \<in> set mp3s. \<exists>e. k f = Inl e"
    proof -
      from that obtain f e where f: "f \<in> set mp3s" "k f = Inl e"
        by blast
      from py_sort_desc_raises [of f mp3s k e, OF f] obtain e' where
        p: "py_sort_desc k mp3s = Inl e'"
        by blast
      from py_sort_desc_Inl [OF p] obtain x where x: "x \<in> set mp3s" "k x = Inl e'"
        by blast
      have "fst (ytdlp_to_mp3 E q w) = Inl e'"
        by (simp add: r p)
      with x show ?thesis by blast
    qed
    have good: "((\<exists>e. fst (ytdlp_to_mp3 E q w) = Inl e) \<longleftrightarrow> mp3s = []) \<and>
                   (mp3s = [] \<longrightarrow>
                      fst (ytdlp_to_mp3 E q w) = Inl (Exc ''RuntimeError'' ''No mp3 produced'')) \<and>
                   (mp3s \<noteq> [] \<longrightarrow>
                      (\<exists>f \<in> set mp3s.
                         fst (ytdlp_to_mp3 E q w) = Inr (os_path_join tmp_dir f) \<and>
                         (\<forall>g \<in> set mp3s. \<forall>tf tg.
                            k f = Inr tf \<and> k g = Inr tg \<longrightarrow> tg \<le> tf)))"
      if "\<forall>f \<in> set mp3s. \<exists>t. k f = Inr t"
    proof -
      from py_sort_desc_Inr [OF that] obtain zs where
        zs: "py_sort_desc k mp3s = Inr zs" "zs = [] \<longleftrightarrow> mp3s = []"
          "mp3s \<noteq> [] \<longrightarrow> hd zs \<in> set mp3s \<and>
              (\<forall>g \<in> set mp3s. \<forall>tf tg. k (hd zs) = Inr tf \<and> k g = Inr tg \<longrightarrow> tg \<le> tf)"
        by blast
      have r': "fst (ytdlp_to_mp3 E q w) =
                  (if mp3s = [] then Inl (Exc ''RuntimeError'' ''No mp3 produced'')
                   else Inr (os_path_join tmp_dir (hd zs)))"
        using zs(2) by (simp add: r zs(1))
      show ?thesis
      proof (cases "mp3s = []")
        case True
        then show ?thesis by (simp add: r')
      next
        case False
        with zs(3) have best: "hd zs \<in> set mp3s"
          "\<forall>g \<in> set mp3s. \<forall>tf tg. k (hd zs) = Inr tf \<and> k g = Inr tg \<longrightarrow> tg \<le> tf"
          by blast+
        have res: "fst (ytdlp_to_mp3 E q w) = Inr (os_path_join tmp_dir (hd zs))"
          using False by (simp add: r')
        have "\<exists>f \<in> set mp3s.
                 fst (ytdlp_to_mp3 E q w) = Inr (os_path_join tmp_dir f) \<and>
                 (\<forall>g \<in> set mp3s. \<forall>tf tg. k f = Inr tf \<and> k g = Inr tg \<longrightarrow> tg \<le> tf)"
          using best res by blast
        then show ?thesis
          using False by (simp add: res)
      qed
    qed
    show ?thesis
      using bad good by (simp add: Inr Let_def mp3s_def [symmetric])
  qed
  show ?thesis
    using main unfolding Let_def h_def [symmetric] k_def by simp
qed

theorem ytdlp_to_mp3_newest_witness:
  "respond stale_dir (trace (started None)) (Makedirs tmp_dir) = None \<and>
   respond stale_dir (trace (started None) @ [Makedirs tmp_dir])
     (CheckCall (ytdlp_cmd (if is_url ''new'' then ''new'' else ''ytsearch1:'' @ ''new''))) = None \<and>
   fst (ytdlp_to_mp3 stale_dir ''new'' (started None)) = Inr ''/tmp/tg_music/old.mp3'' \<and>
   fst (ytdlp_to_mp3 empty_dir ''new'' (started None))
     = Inl (Exc ''RuntimeError'' ''No mp3 produced'')"
proof -
  have mk: "respond stale_dir (trace (started None)) (Makedirs tmp_dir) = None"
    by (simp add: stale_dir_def)
  have dl: "respond stale_dir (trace (started None) @ [Makedirs tmp_dir])
     (CheckCall (ytdlp_cmd (if is_url ''new'' then ''new'' else ''ytsearch1:'' @ ''new''))) = None"
    by (simp add: stale_dir_def)
  have mk': "respond empty_dir (trace (started None)) (Makedirs tmp_dir) = None"
    by (simp add: empty_dir_def)
  have dl': "respond empty_dir (trace (started None) @ [Makedirs tmp_dir])
     (CheckCall (ytdlp_cmd (if is_url ''new'' then ''new'' else ''ytsearch1:'' @ ''new''))) = None"
    by (simp add: empty_dir_def)
  have ls: "listdir stale_dir h tmp_dir = Inr [''new.mp3'', ''notes.txt'', ''old.mp3'']" for h
    by (simp add: stale_dir_def)
  have ls': "listdir empty_dir h tmp_dir = Inr [''notes.txt'']" for h
    by (simp add: empty_dir_def)
  have en: "endswith ''new.mp3'' ''.mp3''" "endswith ''old.mp3'' ''.mp3''"
    "\<not> endswith ''notes.txt'' ''.mp3''"
    by (simp_all add: endswith_def)
  have j: "os_path_join tmp_dir ''new.mp3'' = ''/tmp/tg_music/new.mp3''"
     "os_path_join tmp_dir ''old.mp3'' = ''/tmp/tg_music/old.mp3''"
    by (simp_all add: os_path_join_def tmp_dir_def startswith_def endswith_def)
  have t: "getmtime stale_dir h ''/tmp/tg_music/new.mp3'' = Inr 1"
     "getmtime stale_dir h ''/tmp/tg_music/old.mp3'' = Inr 5" for h
    by (simp_all add: stale_dir_def)
  have "fst (ytdlp_to_mp3 stale_dir ''new'' (started None)) = Inr ''/tmp/tg_music/old.mp3''"
    using ytdlp_to_mp3_newest [OF mk dl]
    by (auto simp add: Let_def ls en j t)
  moreover have "fst (ytdlp_to_mp3 empty_dir ''new'' (started None))
     = Inl (Exc ''RuntimeError'' ''No mp3 produced'')"
    using ytdlp_to_mp3_newest [OF mk' dl']
    by (simp add: Let_def ls' en)
  ultimately show ?thesis
    using mk dl by blast
qed

text \<open>The download returned and the directory lists \<^verbatim>\<open>song.mp3\<close>, yet the resolver raises:
  the file was removed before its modification time was read.\<close>

theorem resolver_raises_with_mp3_counterexample:
  "respond vanished [] (Makedirs tmp_dir) = None \<and>
   respond vanished [Makedirs tmp_dir] (CheckCall (ytdlp_cmd ''ytsearch1:song'')) = None \<and>
   listdir vanished [Makedirs tmp_dir, CheckCall (ytdlp_cmd ''ytsearch1:song'')] tmp_dir
     = Inr [''song.mp3''] \<and>
   endswith ''song.mp3'' ''.mp3'' \<and>
   fst (ytdlp_to_mp3 vanished ''song'' (started None))
     = Inl (Exc ''FileNotFoundError''
         (''[Errno 2] No such file or directory: '' @ [CHR 0x27] @ ''/tmp/tg_music/song.mp3''
            @ [CHR 0x27]))"
  by code_simp

section \<open>The queue and the current item\<close>

lemma head_is_current_keep:
  "mem_queue w' = mem_queue w \<Longrightarrow> mem_now w' = mem_now w \<Longrightarrow>
   head_is_current w' c = head_is_current w c"
  by (simp add: head_is_current_def queue_of_def now_of_def)

lemma ensure_join_and_play_mem:
  "mem_queue (snd (ensure_join_and_play E c p w)) = mem_queue w \<and>
   mem_now (snd (ensure_join_and_play E c p w)) = mem_now w"
  by (simp add: ensure_join_and_play_run split: option.splits)

lemma head_is_current_after_join:
  "head_is_current (snd (ensure_join_and_play E c' p w)) c = head_is_current w c"
  by (rule head_is_current_keep) (simp_all add: ensure_join_and_play_mem)

lemma head_is_current_log [simp]: "head_is_current (log ev w) c = head_is_current w c"
  by (simp add: head_is_current_def)

lemma cmd_stop_inv:
  assumes "\<And>c. head_is_current w c"
  shows "head_is_current (snd (cmd_stop E m w)) c"
proof (cases "group_chat m")
  case None
  then show ?thesis using assms by (simp add: cmd_stop_def say_def)
next
  case (Some c0)
  show ?thesis
    using assms [of c] by (simp add: cmd_stop_run [OF Some] head_is_current_def)
qed

lemma cmd_skip_inv:
  assumes "\<And>c. head_is_current w c"
  shows "head_is_current (snd (cmd_skip E m w)) c"
proof (cases "group_chat m")
  case None
  then show ?thesis using assms by (simp add: cmd_skip_def say_def)
next
  case (Some c0)
  show ?thesis
  proof (cases "queue_of w c0")
    case Nil
    then show ?thesis using Some assms by (simp add: cmd_skip_def prog_defs)
  next
    case (Cons a q)
    show ?thesis
    proof (cases q)
      case Nil
      then show ?thesis
        using Some Cons assms [of c]
        by (simp add: cmd_skip_def prog_defs cleanup_file_run head_is_current_def)
    next
      case (Cons b rest)
      have q: "queue_of w c0 = a # b # rest" using \<open>queue_of w c0 = a # q\<close> Cons by simp
      have "head_is_current (set_now c0 (Some b) (log (Remove a) (set_queue c0 (b # rest) w))) c"
        using assms [of c] by (simp add: head_is_current_def)
      then show ?thesis
        by (simp add: cmd_skip_run [OF Some q] head_is_current_after_join
            split: prod.splits sum.splits)
          (metis head_is_current_after_join snd_conv)
    qed
  qed
qed

lemma cmd_play_inv:
  assumes inv: "\<And>c. head_is_current w c"
  shows "head_is_current (snd (cmd_play E m w)) c"
proof (cases "group_chat m")
  case None
  then show ?thesis using inv by (simp add: cmd_play_def say_def)
next
  case (Some c0)
  show ?thesis
  proof (cases "2 \<le> length (parts_of m)")
    case False
    then show ?thesis using Some inv by (simp add: cmd_play_def say_def Let_def)
  next
    case True
    obtain present w1 where gate: "assistant_in_group E c0 w = (Inr present, w1)"
      by (cases "assistant_in_group E c0 w")
         (auto simp: assistant_in_group_run split: option.splits if_splits)
    from assistant_in_group_world [OF gate] have
      w1: "mem_queue w1 = mem_queue w" "mem_now w1 = mem_now w"
      by blast+
    show ?thesis
    proof (cases present)
      case False
      then have "cmd_play E m w = (Inr (), log (Reply AssistantMissing) w1)"
        using Some True gate by (simp add: cmd_play_def Let_def seq_def say_def not_less)
      then show ?thesis
        using inv [of c] by (simp add: head_is_current_keep [OF w1])
    next
      case present: True
      let ?q = "normalize_music_query (parts_of m ! 1)"
      obtain r w2 where res: "ytdlp_to_mp3 E ?q (log (Reply Searching) w1) = (r, w2)"
        by (cases "ytdlp_to_mp3 E ?q (log (Reply Searching) w1)")
      from ytdlp_to_mp3_world [OF res] have
        w2: "mem_queue w2 = mem_queue w" "mem_now w2 = mem_now w"
        by (simp_all add: w1)
      have inv2: "head_is_current w2 c" for c
        using inv [of c] by (simp add: head_is_current_keep [OF w2])
      have gate': "assistant_in_group E c0 w = (Inr True, w1)"
        using gate present by simp
      note run = cmd_play_run [OF Some True gate']
      show ?thesis
      proof (cases r)
        case (Inl e)
        then show ?thesis
          using inv2 [of c] by (simp add: run res del: One_nat_def)
      next
        case (Inr p)
        show ?thesis
        proof (cases "queue_of w2 c0 = []")
          case False
          then show ?thesis
            using inv2 [of c] inv2 [of c0]
            by (cases "queue_of w2 c0")
               (simp_all add: run res Inr head_is_current_def del: One_nat_def)
        next
          case True
          have "head_is_current (set_now c0 (Some p) (set_queue c0 [p] w2)) c"
            using inv2 [of c] by (simp add: head_is_current_def)
          then have "head_is_current
              (snd (ensure_join_and_play E c0 p (set_now c0 (Some p) (set_queue c0 [p] w2)))) c"
            by (simp add: head_is_current_after_join)
          then show ?thesis
            by (cases "ensure_join_and_play E c0 p (set_now c0 (Some p) (set_queue c0 [p] w2))")
               (auto simp add: run res Inr True simp del: One_nat_def split: sum.splits)
        qed
      qed
    qed
  qed
qed

lemma telegram_webhook_inv:
  assumes "\<And>c. head_is_current w c"
  shows "head_is_current (snd (telegram_webhook E r w)) c"
  using assms
  by (cases r) (simp_all add: telegram_webhook_def swallow_def handle_def
      cmd_play_inv cmd_skip_inv cmd_stop_inv)

lemma run_inv:
  assumes "\<And>c. head_is_current w c"
  shows "head_is_current (run E rs w) c"
  using assms
proof (induction rs arbitrary: w c)
  case Nil
  then show ?case by simp
next
  case (Cons r rs)
  show ?case
    by (simp, rule Cons.IH, rule telegram_webhook_inv, rule Cons.prems)
qed

text \<open>
  C1 (amended). After any sequence of \<^verbatim>\<open>/play\<close>, \<^verbatim>\<open>/skip\<close> and \<^verbatim>\<open>/stop\<close> requests
  from the state at startup, for every environment and every group, at most one item is
  current, and it is the head of the group's list: nothing is current exactly when the list
  is empty. The current item is thus a member of the stored list, and the list may hold the
  same path more than once.
\<close>

theorem current_is_queue_head:
  "now_of (run E rs (started aid)) c =
     (case queue_of (run E rs (started aid)) c of [] \<Rightarrow> None | p # _ \<Rightarrow> Some p)"
proof -
  have "head_is_current (started aid) c" for c
    by (simp add: head_is_current_def started_def now_of_def queue_of_def)
  then have "head_is_current (run E rs (started aid)) c"
    by (rule run_inv)
  then show ?thesis by (simp add: head_is_current_def)
qed

text \<open>After two requests for the same title the path is in the list twice and is also
  the current item, whether \<open>pending\<close> is read as the stored list or as the list without its head.\<close>

theorem queue_duplicate_counterexample:
  "\<not> spec_no_duplicates (queue_of played_twice 1) (now_of played_twice 1) \<and>
   \<not> spec_no_duplicates (tl (queue_of played_twice 1)) (now_of played_twice 1)"
  by code_simp

end
